theory Spec2Isabelle
  imports Complex_Main "HOL-Library.Word"
begin

section \<open>Values and faults\<close>

text \<open>
  The host functions of \<^verbatim>\<open>src/index.js\<close> are called from a WebAssembly guest, so
  every numeric argument arrives as an integral JavaScript number. They are modelled as
  \<^typ>\<open>int\<close>: all arithmetic the allocator performs on them (addition, comparison, one
  division followed by \<^verbatim>\<open>Math.ceil\<close>) is exact on integral doubles of this magnitude.

  A \<^verbatim>\<open>throw\<close> is the left injection of a sum. Each error class of the source is one
  constructor carrying the fields its JavaScript constructor stores; \<open>TypeError\<close> and
  \<open>RangeError\<close> are the built-in classes of the language. \<open>FatalError\<close> is the class the
  \<^verbatim>\<open>Runner\<close> methods throw for missing guest exports; the source file uses it and does
  not declare it.
\<close>

datatype error =
    is_TypeError: TypeError string
  | is_RangeError: RangeError string
  | is_FatalError: FatalError string
  | is_WasmPanicError: WasmPanicError string string int int
  | is_FreeUnallocedError: FreeUnallocedError int int int
  | is_FreeAgainError: FreeAgainError int int int
  | is_FreeMismatchedSizeError: FreeMismatchedSizeError int int int int
  | is_ReallocFreedError: ReallocFreedError int int int
  | is_ReallocUnallocedError: ReallocUnallocedError int int int
  | is_BlockSizeMismatchError: BlockSizeMismatchError int int int int

section \<open>Allocator blocks\<close>

text \<open>
  \<^verbatim>\<open>class AllocBlock { pointer; size; used }\<close>. The field \<^verbatim>\<open>size\<close> is called
  \<open>size_b\<close> here, and a \<^verbatim>\<open>size\<close> argument \<open>sz\<close>, a \<^verbatim>\<open>pointer\<close> argument \<open>ptr\<close>.
\<close>

record AllocBlock =
  pointer :: int
  size_b :: int
  used :: bool

definition AllocBlock_new :: "int \<Rightarrow> int \<Rightarrow> AllocBlock" where
  "AllocBlock_new ptr sz = \<lparr>pointer = ptr, size_b = sz, used = True\<rparr>"

definition nextPointerWith :: "int \<Rightarrow> int \<Rightarrow> int" where
  "nextPointerWith ptr sz = ptr + sz"

definition nextPointer :: "AllocBlock \<Rightarrow> int" where
  "nextPointer b = nextPointerWith (pointer b) (size_b b)"

text \<open>\<^verbatim>\<open>Math.ceil(address / align) * align\<close>, the division being the one of real numbers.\<close>

definition alignPointer :: "int \<Rightarrow> int \<Rightarrow> int" where
  "alignPointer address align = \<lceil>real_of_int address / real_of_int align\<rceil> * align"

section \<open>\<^verbatim>\<open>AllocModule.newBlock\<close> and \<^verbatim>\<open>alloc\<close>\<close>

text \<open>
  The \<^verbatim>\<open>for\<close> loop of \<^verbatim>\<open>newBlock\<close>, entered at index \<open>i\<close>. The block list is only
  mutated on the path that ends the loop with \<^verbatim>\<open>break\<close>, so the list is a parameter and
  the result is \<open>None\<close> when the loop runs to its end with \<^verbatim>\<open>existingBlock\<close> undefined,
  and otherwise the block that was taken together with the updated list.
  \<^verbatim>\<open>blocks[i - 1]\<close> is \<^verbatim>\<open>undefined\<close> exactly when \<open>i = 0\<close>, and \<^verbatim>\<open>blocks[i + 1]\<close> exactly
  when \<open>i + 1\<close> is not an index of the list.
\<close>

function scan :: "AllocBlock list \<Rightarrow> nat \<Rightarrow> int \<Rightarrow> int \<Rightarrow> (AllocBlock \<times> AllocBlock list) option" where
  "scan blocks i sz align =
     (if i < length blocks then
        (let block = blocks ! i in
         if used block then scan blocks (i + 1) sz align
         else if size_b block \<ge> sz then
           (if i > 0 then
              (let prevBlock = blocks ! (i - 1);
                   alignedPointer = alignPointer (nextPointer prevBlock) align
               in if i + 1 < length blocks
                     \<and> nextPointerWith alignedPointer sz > pointer (blocks ! (i + 1))
                  then scan blocks (i + 1) sz align
                  else (let block' = block\<lparr>pointer := alignedPointer, used := True, size_b := sz\<rparr>
                        in Some (block', blocks[i := block'])))
            else (let block' = block\<lparr>used := True, size_b := sz\<rparr>
                  in Some (block', blocks[i := block'])))
         else scan blocks (i + 1) sz align)
      else None)"
  by pat_completeness auto
termination
  by (relation "measure (\<lambda>(blocks, i, sz, align). length blocks - i)") auto

declare scan.simps [simp del]

text \<open>
  \<^verbatim>\<open>static newBlock(self, size, align)\<close>: the block list of \<^verbatim>\<open>self\<close> goes in, the block
  that is returned and the list after the call come out.
\<close>

definition newBlock :: "AllocBlock list \<Rightarrow> int \<Rightarrow> int \<Rightarrow> error + (AllocBlock \<times> AllocBlock list)" where
  "newBlock blocks sz align =
     (if align < 1 then Inl (TypeError ''alignment cannot be less than 1'')
      else if length blocks > 0 then
        (case scan blocks 0 sz align of
           Some existing \<Rightarrow> Inr existing
         | None \<Rightarrow>
             (let lastBlock = blocks ! (length blocks - 1);
                  ptr = alignPointer (nextPointer lastBlock) align;
                  existingBlock = AllocBlock_new ptr sz
              in Inr (existingBlock, blocks @ [existingBlock])))
      else (let block = AllocBlock_new align sz
            in Inr (block, blocks @ [block])))"

text \<open>\<^verbatim>\<open>alloc(size, align)\<close> returns the \<^verbatim>\<open>pointer\<close> field of the block.\<close>

definition alloc :: "AllocBlock list \<Rightarrow> int \<Rightarrow> int \<Rightarrow> error + (int \<times> AllocBlock list)" where
  "alloc blocks sz align =
     (case newBlock blocks sz align of
        Inl e \<Rightarrow> Inl e
      | Inr (block, blocks') \<Rightarrow> Inr (pointer block, blocks'))"

section \<open>Text built from numbers\<close>

text \<open>
  A template literal \<^verbatim>\<open>${n}\<close> and the concatenation \<^verbatim>\<open>text + n\<close> both convert the number
  \<open>n\<close> with \<^verbatim>\<open>ToString\<close>: for an integral number of the magnitude met here, its decimal
  digits, after a minus sign when it is negative.
\<close>

definition digit :: "nat \<Rightarrow> char" where
  "digit d = ''0123456789'' ! d"

function natToString :: "nat \<Rightarrow> string" where
  "natToString n = (if n < 10 then [digit n] else natToString (n div 10) @ [digit (n mod 10)])"
  by pat_completeness auto
termination
  by (relation "measure (\<lambda>n. n)") auto

declare natToString.simps [simp del]

definition Number_toString :: "int \<Rightarrow> string" where
  "Number_toString n = (if n < 0 then CHR ''-'' # natToString (nat (- n)) else natToString (nat n))"

section \<open>Error constructors that fail\<close>

text \<open>
  The constructors of \<^verbatim>\<open>FreeMismatchedSizeError\<close> and \<^verbatim>\<open>BlockSizeMismatchError\<close> pass to
  \<^verbatim>\<open>super\<close> the expression
  \<^verbatim>\<open>`tried ...` + `(tried size ..., ` + `though the block was of size ${actualSize}) ` `at 0x...`\<close>:
  no \<^verbatim>\<open>+\<close> stands between the last two template literals, so the third literal is the
  tag of a tagged template whose template is the fourth. Evaluating a tagged template
  calls the tag; the tag here is a string, which is not callable, and the call raises
  the built-in \<open>TypeError\<close> before \<^verbatim>\<open>super\<close> runs and before any field is assigned. The
  message of that \<open>TypeError\<close> is chosen by the engine; the model fixes one.
\<close>

definition call_string_as_tag :: "string \<Rightarrow> error + string" where
  "call_string_as_tag tag = Inl (TypeError ''tag is not a function'')"

definition new_FreeMismatchedSizeError :: "int \<Rightarrow> int \<Rightarrow> int \<Rightarrow> int \<Rightarrow> error + error" where
  "new_FreeMismatchedSizeError ptr triedSize triedAlign actualSize =
     (case call_string_as_tag
             (''though the block was of size '' @ Number_toString actualSize @ '') '') of
        Inl e \<Rightarrow> Inl e
      | Inr tagged \<Rightarrow> Inr (FreeMismatchedSizeError ptr triedSize triedAlign actualSize))"

definition new_BlockSizeMismatchError :: "int \<Rightarrow> int \<Rightarrow> int \<Rightarrow> int \<Rightarrow> error + error" where
  "new_BlockSizeMismatchError ptr expectedSize align actualSize =
     (case call_string_as_tag
             (''though the block was of size '' @ Number_toString actualSize @ '') '') of
        Inl e \<Rightarrow> Inl e
      | Inr tagged \<Rightarrow> Inr (BlockSizeMismatchError ptr expectedSize align actualSize))"

text \<open>
  \<^verbatim>\<open>throw new C(...)\<close>: the fault is the error object when the constructor returns one,
  and the constructor's own fault otherwise.
\<close>

definition throw_new :: "error + error \<Rightarrow> error" where
  "throw_new r = (case r of Inl e \<Rightarrow> e | Inr e \<Rightarrow> e)"

section \<open>\<^verbatim>\<open>AllocModule.dealloc\<close>\<close>

text \<open>
  \<^verbatim>\<open>for (const block of this.blocks)\<close>: the first block whose \<^verbatim>\<open>pointer\<close> equals the
  argument decides the call. Only \<^verbatim>\<open>block.used = false\<close> mutates the list.
\<close>

fun dealloc :: "AllocBlock list \<Rightarrow> int \<Rightarrow> int \<Rightarrow> int \<Rightarrow> error + AllocBlock list" where
  "dealloc [] ptr sz align = Inl (FreeUnallocedError ptr sz align)"
| "dealloc (block # rest) ptr sz align =
     (if pointer block = ptr then
        (if \<not> used block then Inl (FreeAgainError ptr sz align)
         else if size_b block \<noteq> sz then
           Inl (throw_new (new_FreeMismatchedSizeError ptr sz align (size_b block)))
         else Inr (block\<lparr>used := False\<rparr> # rest))
      else (case dealloc rest ptr sz align of
              Inl e \<Rightarrow> Inl e
            | Inr rest' \<Rightarrow> Inr (block # rest')))"

section \<open>A guest run of allocator calls\<close>

text \<open>
  The guest calls \<^verbatim>\<open>alloc\<close> and \<^verbatim>\<open>dealloc\<close> one after the other on the same allocator. A
  fault ends the run. The run yields the final block list and the addresses that the
  \<^verbatim>\<open>alloc\<close> calls returned, in call order.
\<close>

datatype call = Alloc int int | Dealloc int int int

fun run_calls :: "AllocBlock list \<Rightarrow> call list \<Rightarrow> error + (AllocBlock list \<times> int list)" where
  "run_calls bs [] = Inr (bs, [])"
| "run_calls bs (Alloc sz align # cs) =
     (case alloc bs sz align of
        Inl e \<Rightarrow> Inl e
      | Inr (p, bs') \<Rightarrow>
          (case run_calls bs' cs of
             Inl e \<Rightarrow> Inl e
           | Inr (bs'', ps) \<Rightarrow> Inr (bs'', p # ps)))"
| "run_calls bs (Dealloc ptr sz align # cs) =
     (case dealloc bs ptr sz align of
        Inl e \<Rightarrow> Inl e
      | Inr bs' \<Rightarrow> run_calls bs' cs)"

text \<open>
  A size is an unsigned quantity: an \<^verbatim>\<open>alloc\<close> call is valid when the size it passes is
  not negative. An alignment below 1 and a \<^verbatim>\<open>dealloc\<close> of an address or size that does
  not match a used block fault, which ends the run, so they need no condition here.
\<close>

fun valid_call :: "call \<Rightarrow> bool" where
  "valid_call (Alloc sz align) = (0 \<le> sz)"
| "valid_call (Dealloc ptr sz align) = True"

text \<open>The address range \<open>[pointer, pointer + size)\<close> a block occupies.\<close>

definition block_range :: "AllocBlock \<Rightarrow> int set" where
  "block_range b = {pointer b ..< nextPointer b}"

text \<open>
  The invariant behind the claims on the block list: every block, used or free, starts
  at a positive address and has a size that is not negative, and each block ends at or
  before the start of every later block.
\<close>

definition blocks_inv :: "AllocBlock list \<Rightarrow> bool" where
  "blocks_inv bs \<longleftrightarrow>
     (\<forall>b \<in> set bs. 1 \<le> pointer b \<and> 0 \<le> size_b b) \<and>
     sorted_wrt (\<lambda>a b. nextPointer a \<le> pointer b) bs"

section \<open>Guest memory and byte arrays\<close>

text \<open>
  The guest exports one \<^verbatim>\<open>WebAssembly.Memory\<close>; its \<^verbatim>\<open>buffer\<close> is the guest's linear
  memory, a sequence of bytes. \<^verbatim>\<open>Runner.memory()\<close> returns the \<^verbatim>\<open>Memory\<close> object itself
  (\<^verbatim>\<open>this.instance.exports.memory\<close>) and throws when the guest exports none.
\<close>

type_synonym byte = "8 word"

record Runner =
  exports_memory :: "byte list option"

text \<open>
  The two kinds of object that the source passes as first argument to
  \<^verbatim>\<open>new Uint8Array(_, byteOffset, length)\<close>: the \<^verbatim>\<open>Memory\<close> object that \<^verbatim>\<open>Runner.memory()\<close>
  returns, and the \<^verbatim>\<open>ArrayBuffer\<close> read from its \<^verbatim>\<open>buffer\<close> property. Both stand for the
  one memory of the guest, so neither carries data of its own.
\<close>

datatype js_object = WebAssembly_Memory | Memory_buffer

definition Runner_memory :: "Runner \<Rightarrow> error + js_object" where
  "Runner_memory self =
     (case exports_memory self of
        None \<Rightarrow> Inl (FatalError ''memory is not exported'')
      | Some buffer \<Rightarrow> Inr WebAssembly_Memory)"

text \<open>
  A \<^verbatim>\<open>Uint8Array\<close> is either a window of \<open>length\<close> bytes at \<open>byteOffset\<close> onto the guest's
  memory, which reads and writes that memory, or an array with storage of its own.

  The constructor decides by its first argument. For an \<^verbatim>\<open>ArrayBuffer\<close> it makes the
  window, and raises \<open>RangeError\<close> when offset or length is negative or the window does
  not fit. Any other object that is neither a typed array nor iterable is read as an
  array-like object: the new array has storage of its own with as many elements as the
  object's \<^verbatim>\<open>length\<close> property says, and the arguments \<open>byteOffset\<close> and \<open>length\<close> are not
  used. A \<^verbatim>\<open>WebAssembly.Memory\<close> has no \<^verbatim>\<open>length\<close> property, which makes that count 0.
\<close>

datatype Uint8Array = Window nat nat | Own "byte list"

definition Uint8Array_new :: "Runner \<Rightarrow> js_object \<Rightarrow> int \<Rightarrow> int \<Rightarrow> error + Uint8Array" where
  "Uint8Array_new r obj byteOffset len =
     (case obj of
        WebAssembly_Memory \<Rightarrow> Inr (Own [])
      | Memory_buffer \<Rightarrow>
          (case exports_memory r of
             None \<Rightarrow> Inl (FatalError ''memory is not exported'')
           | Some buffer \<Rightarrow>
               if byteOffset < 0 \<or> len < 0 \<or> byteOffset + len > int (length buffer)
               then Inl (RangeError ''invalid typed array length or offset'')
               else Inr (Window (nat byteOffset) (nat len))))"

text \<open>The elements of an array, read now, and the number of them.\<close>

definition elements :: "Runner \<Rightarrow> Uint8Array \<Rightarrow> byte list" where
  "elements r a =
     (case a of
        Own xs \<Rightarrow> xs
      | Window off len \<Rightarrow>
          (case exports_memory r of
             None \<Rightarrow> []
           | Some buffer \<Rightarrow> take len (drop off buffer)))"

definition array_length :: "Uint8Array \<Rightarrow> nat" where
  "array_length a = (case a of Own xs \<Rightarrow> length xs | Window off len \<Rightarrow> len)"

text \<open>
  \<^verbatim>\<open>target.set(source)\<close> copies every element of \<open>source\<close> to the start of \<open>target\<close>, and
  raises \<open>RangeError\<close> when \<open>source\<close> is the longer one. Guest memory changes only when
  \<open>target\<close> is a window onto it; an array with its own storage is not visible to anyone
  once the call that made it returns, so its new content is not kept.
\<close>

definition Uint8Array_set :: "Runner \<Rightarrow> Uint8Array \<Rightarrow> Uint8Array \<Rightarrow> error + Runner" where
  "Uint8Array_set r target source =
     (let src = elements r source in
      if length src > array_length target then Inl (RangeError ''offset is out of bounds'')
      else (case target of
              Own ys \<Rightarrow> Inr r
            | Window off len \<Rightarrow>
                (case exports_memory r of
                   None \<Rightarrow> Inr r
                 | Some buffer \<Rightarrow>
                     Inr (r\<lparr>exports_memory :=
                              Some (take off buffer @ src @ drop (off + length src) buffer)\<rparr>))))"

text \<open>
  \<^verbatim>\<open>Runner.bytes(offset, length)\<close>, which passes \<^verbatim>\<open>this.memory().buffer\<close> to the constructor.
\<close>

definition Runner_bytes :: "Runner \<Rightarrow> int \<Rightarrow> int \<Rightarrow> error + Uint8Array" where
  "Runner_bytes self offset len =
     (case Runner_memory self of
        Inl e \<Rightarrow> Inl e
      | Inr memory \<Rightarrow> Uint8Array_new self Memory_buffer offset len)"

section \<open>\<^verbatim>\<open>AllocModule.realloc\<close>\<close>

record AllocModule =
  runner :: Runner
  blocks :: "AllocBlock list"

text \<open>
  The \<^verbatim>\<open>for\<close> loop of \<^verbatim>\<open>realloc\<close> over the blocks from index \<open>i\<close> on: a fault, or the index
  of the block assigned to \<^verbatim>\<open>reallocBlock\<close>, or \<open>None\<close> when \<^verbatim>\<open>reallocBlock\<close> stays undefined.
\<close>

fun find_reallocBlock :: "AllocBlock list \<Rightarrow> nat \<Rightarrow> int \<Rightarrow> int \<Rightarrow> int \<Rightarrow> error + nat option" where
  "find_reallocBlock [] i ptr sz align = Inr None"
| "find_reallocBlock (block # rest) i ptr sz align =
     (if pointer block = ptr then
        (if \<not> used block then Inl (ReallocFreedError ptr sz align)
         else if size_b block \<noteq> sz then
           Inl (throw_new (new_BlockSizeMismatchError ptr sz align (size_b block)))
         else Inr (Some i))
      else find_reallocBlock rest (i + 1) ptr sz align)"

text \<open>
  \<^verbatim>\<open>realloc(pointer, size, align, newSize)\<close>. A fault can be raised after the block was
  marked free, so the result pairs the outcome with the module as the call leaves it.
  The statements after the loop, in source order: \<^verbatim>\<open>reallocBlock.used = false\<close>; then
  \<^verbatim>\<open>origData = new Uint8Array(this.runner.memory(), reallocBlock.pointer, size)\<close>; then
  \<^verbatim>\<open>newBlock\<close>; then \<^verbatim>\<open>newData = new Uint8Array(this.runner.memory(), newBlock.pointer, newSize)\<close>;
  then \<^verbatim>\<open>newData.set(origData)\<close>.
\<close>

definition realloc :: "AllocModule \<Rightarrow> int \<Rightarrow> int \<Rightarrow> int \<Rightarrow> int \<Rightarrow> (error + int) \<times> AllocModule" where
  "realloc self ptr sz align newSize =
     (if sz = newSize then (Inr ptr, self)
      else
        (case find_reallocBlock (blocks self) 0 ptr sz align of
           Inl e \<Rightarrow> (Inl e, self)
         | Inr None \<Rightarrow> (Inl (ReallocUnallocedError ptr sz align), self)
         | Inr (Some i) \<Rightarrow>
             (let reallocBlock = blocks self ! i;
                  self1 = self\<lparr>blocks := (blocks self)[i := reallocBlock\<lparr>used := False\<rparr>]\<rparr>
              in case Runner_memory (runner self1) of
                   Inl e \<Rightarrow> (Inl e, self1)
                 | Inr memory1 \<Rightarrow>
              (case Uint8Array_new (runner self1) memory1 (pointer reallocBlock) sz of
                   Inl e \<Rightarrow> (Inl e, self1)
                 | Inr origData \<Rightarrow>
              (case newBlock (blocks self1) newSize align of
                   Inl e \<Rightarrow> (Inl e, self1)
                 | Inr (newBlk, blocks2) \<Rightarrow>
              (let self2 = self1\<lparr>blocks := blocks2\<rparr>
               in case Runner_memory (runner self2) of
                   Inl e \<Rightarrow> (Inl e, self2)
                 | Inr memory2 \<Rightarrow>
              (case Uint8Array_new (runner self2) memory2 (pointer newBlk) newSize of
                   Inl e \<Rightarrow> (Inl e, self2)
                 | Inr newData \<Rightarrow>
              (case Uint8Array_set (runner self2) newData origData of
                   Inl e \<Rightarrow> (Inl e, self2)
                 | Inr runner' \<Rightarrow> (Inr (pointer newBlk), self2\<lparr>runner := runner'\<rparr>)))))))))"

section \<open>\<^verbatim>\<open>PanicModule\<close>\<close>

text \<open>
  The accumulator \<^verbatim>\<open>{message, file, line, column}\<close>; \<^verbatim>\<open>file\<close>, here \<open>file_name\<close>,
  is \<^verbatim>\<open>undefined\<close> (\<open>None\<close>) until it is set. \<^verbatim>\<open>panic_str\<close> and \<^verbatim>\<open>panic_put_file\<close> take here the text that
  \<^verbatim>\<open>Runner.decodeUtf8(pointer, length)\<close> returned to them.
\<close>

record PanicModule =
  message :: string
  file_name :: "string option"
  line :: int
  column :: int

definition PanicModule_new :: PanicModule where
  "PanicModule_new = \<lparr>message = [], file_name = None, line = 0, column = 0\<rparr>"

text \<open>\<^verbatim>\<open>this.message += ch\<close>, where \<^verbatim>\<open>ch\<close> is the number the guest passed.\<close>

definition panic_ch :: "PanicModule \<Rightarrow> int \<Rightarrow> PanicModule" where
  "panic_ch self ch = self\<lparr>message := message self @ Number_toString ch\<rparr>"

definition panic_str :: "PanicModule \<Rightarrow> string \<Rightarrow> PanicModule" where
  "panic_str self str = self\<lparr>message := message self @ str\<rparr>"

definition panic_put_file :: "PanicModule \<Rightarrow> string \<Rightarrow> PanicModule" where
  "panic_put_file self str = self\<lparr>file_name := Some str\<rparr>"

definition panic_put_line_column :: "PanicModule \<Rightarrow> int \<Rightarrow> int \<Rightarrow> PanicModule" where
  "panic_put_line_column self lnum cnum = self\<lparr>line := lnum, column := cnum\<rparr>"

text \<open>\<^verbatim>\<open>panic()\<close> always throws; the accumulator is left as it is.\<close>

definition panic :: "PanicModule \<Rightarrow> error" where
  "panic self =
     (let lnum = line self;
          cnum = column self;
          fl = (case file_name self of None \<Rightarrow> ''?'' | Some f \<Rightarrow> f);
          msg = (if message self = [] then
                   ''<no message, '' @ fl @ '':'' @ Number_toString lnum @ '':''
                     @ Number_toString cnum @ ''>''
                 else message self)
      in WasmPanicError msg fl lnum cnum)"

text \<open>
  The calls a guest makes on the panic bridge before the terminal \<^verbatim>\<open>panic()\<close>, and the
  accumulator after a sequence of them on a new bridge.
\<close>

datatype panic_call =
    Panic_ch int
  | Panic_str string
  | Panic_put_file string
  | Panic_put_line_column int int

fun panic_step :: "PanicModule \<Rightarrow> panic_call \<Rightarrow> PanicModule" where
  "panic_step self (Panic_ch ch) = panic_ch self ch"
| "panic_step self (Panic_str str) = panic_str self str"
| "panic_step self (Panic_put_file str) = panic_put_file self str"
| "panic_step self (Panic_put_line_column lnum cnum) = panic_put_line_column self lnum cnum"

fun is_message_fragment :: "panic_call \<Rightarrow> bool" where
  "is_message_fragment (Panic_ch ch) = True"
| "is_message_fragment (Panic_str str) = True"
| "is_message_fragment (Panic_put_file str) = False"
| "is_message_fragment (Panic_put_line_column lnum cnum) = False"

section \<open>\<^verbatim>\<open>DebugModule.dblog_ch\<close>\<close>

text \<open>
  \<^verbatim>\<open>this.dblog.push(String.fromCodePoint(code))\<close>. The text \<^verbatim>\<open>String.fromCodePoint\<close> makes
  is kept as the sequence of its UTF-16 code units: one unit for a code point below
  \<open>0x10000\<close>, a surrogate pair up to \<open>0x10FFFF\<close>, and a \<open>RangeError\<close> outside that range.
\<close>

definition String_fromCodePoint :: "int \<Rightarrow> error + nat list" where
  "String_fromCodePoint code =
     (if code < 0 \<or> code > 0x10FFFF then Inl (RangeError ''Invalid code point'')
      else if code < 0x10000 then Inr [nat code]
      else Inr [0xD800 + (nat code - 0x10000) div 0x400,
                0xDC00 + (nat code - 0x10000) mod 0x400])"

definition dblog_ch :: "nat list list \<Rightarrow> int \<Rightarrow> error + nat list list" where
  "dblog_ch dblog code =
     (case String_fromCodePoint code of
        Inl e \<Rightarrow> Inl e
      | Inr str \<Rightarrow> Inr (dblog @ [str]))"

section \<open>Properties\<close>

lemma alignPointer_div: "alignPointer address align = - ((- address) div align) * align"
  by (simp add: alignPointer_def ceiling_divide_eq_div)

text \<open>
  Claim C4. On an allocator whose block list is empty, \<open>alloc sz A\<close> with \<open>A \<ge> 1\<close>, for any
  size, creates the first block at address \<open>A\<close>, marked used, and returns exactly \<open>A\<close>,
  which is not \<open>0\<close>.
\<close>

theorem alloc_empty_returns_align:
  "1 \<le> A \<Longrightarrow>
     alloc [] sz A = Inr (A, [\<lparr>pointer = A, size_b = sz, used = True\<rparr>]) \<and> A \<noteq> 0"
  by (simp add: alloc_def newBlock_def AllocBlock_new_def Let_def)

theorem alloc_empty_returns_align_witness:
  "(1::int) \<le> 4 \<and> alloc [] 8 4 = Inr (4, [\<lparr>pointer = 4, size_b = 8, used = True\<rparr>]) \<and> (4::int) \<noteq> 0"
  using alloc_empty_returns_align [of 4 8] by simp


section \<open>The block list under \<^verbatim>\<open>alloc\<close> and \<^verbatim>\<open>dealloc\<close>\<close>

lemma alignPointer_ge: "1 \<le> align \<Longrightarrow> address \<le> alignPointer address align"
proof -
  assume a: "1 \<le> align"
  have "(- address) div align * align \<le> - address"
    using a by (simp add: minus_mod_eq_div_mult [symmetric])
  then show ?thesis by (simp add: alignPointer_div)
qed

lemma blocks_inv_nth:
  "blocks_inv bs \<longleftrightarrow>
     (\<forall>i < length bs. 1 \<le> pointer (bs ! i) \<and> 0 \<le> size_b (bs ! i)) \<and>
     (\<forall>i j. i < j \<longrightarrow> j < length bs \<longrightarrow> nextPointer (bs ! i) \<le> pointer (bs ! j))"
  by (simp add: blocks_inv_def sorted_wrt_iff_nth_less all_set_conv_all_nth)

lemma blocks_inv_update:
  assumes inv: "blocks_inv bs" and i: "i < length bs"
    and b: "1 \<le> pointer b" "0 \<le> size_b b"
    and prev: "0 < i \<Longrightarrow> nextPointer (bs ! (i - 1)) \<le> pointer b"
    and nxt: "i + 1 < length bs \<Longrightarrow> nextPointer b \<le> pointer (bs ! (i + 1))"
  shows "blocks_inv (bs[i := b])"
proof -
  have pos: "\<And>k. k < length bs \<Longrightarrow> 1 \<le> pointer (bs ! k) \<and> 0 \<le> size_b (bs ! k)"
    and ord: "\<And>k l. k < l \<Longrightarrow> l < length bs \<Longrightarrow> nextPointer (bs ! k) \<le> pointer (bs ! l)"
    using inv by (auto simp: blocks_inv_nth)
  have ends: "\<And>k. k < length bs \<Longrightarrow> pointer (bs ! k) \<le> nextPointer (bs ! k)"
    using pos by (simp add: nextPointer_def nextPointerWith_def)
  have before: "nextPointer (bs ! k) \<le> pointer b" if "k < i" for k
  proof (cases "k = i - 1")
    case True
    then show ?thesis using prev that by simp
  next
    case False
    then have "k < i - 1" "i - 1 < length bs" "0 < i" using that i by auto
    then have "nextPointer (bs ! k) \<le> pointer (bs ! (i - 1))" using ord by blast
    also have "\<dots> \<le> nextPointer (bs ! (i - 1))" using ends \<open>i - 1 < length bs\<close> by blast
    also have "\<dots> \<le> pointer b" using prev \<open>0 < i\<close> by blast
    finally show ?thesis .
  qed
  have after: "nextPointer b \<le> pointer (bs ! l)" if "i < l" "l < length bs" for l
  proof (cases "l = i + 1")
    case True
    then show ?thesis using nxt that by simp
  next
    case False
    then have l: "i + 1 < l" "i + 1 < length bs" using that by auto
    have "nextPointer b \<le> pointer (bs ! (i + 1))" using nxt l by blast
    also have "\<dots> \<le> nextPointer (bs ! (i + 1))" using ends l by blast
    also have "\<dots> \<le> pointer (bs ! l)" using ord l that by blast
    finally show ?thesis .
  qed
  show ?thesis
    unfolding blocks_inv_nth
  proof (intro conjI allI impI)
    fix k assume "k < length (bs[i := b])"
    then show "1 \<le> pointer (bs[i := b] ! k)" using pos b by (cases "k = i") auto
  next
    fix k assume "k < length (bs[i := b])"
    then show "0 \<le> size_b (bs[i := b] ! k)" using pos b by (cases "k = i") auto
  next
    fix k l assume kl: "k < l" "l < length (bs[i := b])"
    show "nextPointer (bs[i := b] ! k) \<le> pointer (bs[i := b] ! l)"
    proof (cases "k = i")
      case True
      then show ?thesis using kl after i by simp
    next
      case k: False
      show ?thesis
      proof (cases "l = i")
        case True
        then show ?thesis using kl before k by simp
      next
        case False
        then show ?thesis using kl k ord by simp
      qed
    qed
  qed
qed

lemma blocks_inv_snoc:
  assumes inv: "blocks_inv bs" and ne: "bs \<noteq> []"
    and b: "0 \<le> size_b b" and lst: "nextPointer (bs ! (length bs - 1)) \<le> pointer b"
  shows "blocks_inv (bs @ [b])"
proof -
  have pos: "\<And>k. k < length bs \<Longrightarrow> 1 \<le> pointer (bs ! k) \<and> 0 \<le> size_b (bs ! k)"
    and ord: "\<And>k l. k < l \<Longrightarrow> l < length bs \<Longrightarrow> nextPointer (bs ! k) \<le> pointer (bs ! l)"
    using inv by (auto simp: blocks_inv_nth)
  let ?n = "length bs - 1"
  have n: "?n < length bs" using ne by simp
  have before: "nextPointer (bs ! k) \<le> pointer b" if "k < length bs" for k
  proof (cases "k = ?n")
    case True
    then show ?thesis using lst by simp
  next
    case False
    then have "k < ?n" using that by simp
    then have "nextPointer (bs ! k) \<le> pointer (bs ! ?n)" using ord n by blast
    also have "\<dots> \<le> nextPointer (bs ! ?n)"
      using pos [OF n] by (simp add: nextPointer_def nextPointerWith_def)
    finally show ?thesis using lst by simp
  qed
  have "1 \<le> pointer (bs ! ?n)" using pos n by blast
  also have "\<dots> \<le> nextPointer (bs ! ?n)"
    using pos [OF n] by (simp add: nextPointer_def nextPointerWith_def)
  finally have pb: "1 \<le> pointer b" using lst by simp
  show ?thesis
    using inv before pb b
    by (auto simp: blocks_inv_def sorted_wrt_append in_set_conv_nth)
qed


lemma scan_step:
  assumes "i < length bs"
  shows "scan bs i sz align = scan bs (i + 1) sz align
       \<or> (i = 0 \<and> \<not> used (bs ! i) \<and> sz \<le> size_b (bs ! i)
            \<and> scan bs i sz align =
                Some ((bs ! i)\<lparr>used := True, size_b := sz\<rparr>,
                      bs[i := (bs ! i)\<lparr>used := True, size_b := sz\<rparr>]))
       \<or> (0 < i \<and> \<not> used (bs ! i) \<and> sz \<le> size_b (bs ! i)
            \<and> (i + 1 < length bs \<longrightarrow>
                  nextPointerWith (alignPointer (nextPointer (bs ! (i - 1))) align) sz
                    \<le> pointer (bs ! (i + 1)))
            \<and> scan bs i sz align =
                Some ((bs ! i)\<lparr>pointer := alignPointer (nextPointer (bs ! (i - 1))) align,
                               used := True, size_b := sz\<rparr>,
                      bs[i := (bs ! i)\<lparr>pointer := alignPointer (nextPointer (bs ! (i - 1))) align,
                                       used := True, size_b := sz\<rparr>]))"
  unfolding scan.simps [of bs i sz align]
  using assms by (auto simp: Let_def)

lemma scan_end: "\<not> i < length bs \<Longrightarrow> scan bs i sz align = None"
  by (simp add: scan.simps [of bs i sz align])

lemma scan_inv:
  assumes inv: "blocks_inv bs" and sz: "0 \<le> sz" and al: "1 \<le> align"
  shows "scan bs i sz align = Some (b, bs') \<Longrightarrow>
         blocks_inv bs' \<and> length bs' = length bs \<and> 1 \<le> pointer b"
proof (induction "length bs - i" arbitrary: i)
  case 0
  then have "\<not> i < length bs" by simp
  then show ?case using "0.prems" by (simp add: scan_end)
next
  case (Suc n)
  then have i: "i < length bs" by simp
  have pos: "\<And>k. k < length bs \<Longrightarrow> 1 \<le> pointer (bs ! k) \<and> 0 \<le> size_b (bs ! k)"
    and ord: "\<And>k l. k < l \<Longrightarrow> l < length bs \<Longrightarrow> nextPointer (bs ! k) \<le> pointer (bs ! l)"
    using inv by (auto simp: blocks_inv_nth)
  consider
      (skip) "scan bs i sz align = scan bs (i + 1) sz align"
    | (first) "i = 0" "sz \<le> size_b (bs ! i)"
        "scan bs i sz align =
           Some ((bs ! i)\<lparr>used := True, size_b := sz\<rparr>,
                 bs[i := (bs ! i)\<lparr>used := True, size_b := sz\<rparr>])"
    | (later) "0 < i"
        "i + 1 < length bs \<longrightarrow>
           nextPointerWith (alignPointer (nextPointer (bs ! (i - 1))) align) sz
             \<le> pointer (bs ! (i + 1))"
        "scan bs i sz align =
           Some ((bs ! i)\<lparr>pointer := alignPointer (nextPointer (bs ! (i - 1))) align,
                          used := True, size_b := sz\<rparr>,
                 bs[i := (bs ! i)\<lparr>pointer := alignPointer (nextPointer (bs ! (i - 1))) align,
                                  used := True, size_b := sz\<rparr>])"
    using scan_step [OF i, of sz align] by blast
  then show ?case
  proof cases
    case skip
    have "n = length bs - (i + 1)" using Suc.hyps(2) by simp
    then show ?thesis using Suc.hyps(1) [of "i + 1"] Suc.prems skip by simp
  next
    case first
    let ?b = "(bs ! i)\<lparr>used := True, size_b := sz\<rparr>"
    have eq: "b = ?b" "bs' = bs[i := ?b]" using first(3) Suc.prems by simp_all
    have "nextPointer ?b \<le> nextPointer (bs ! i)"
      using first(2) by (simp add: nextPointer_def nextPointerWith_def)
    moreover have "i + 1 < length bs \<Longrightarrow> nextPointer (bs ! i) \<le> pointer (bs ! (i + 1))"
      using ord [of i "i + 1"] by simp
    ultimately have "i + 1 < length bs \<Longrightarrow> nextPointer ?b \<le> pointer (bs ! (i + 1))"
      by fastforce
    then have "blocks_inv (bs[i := ?b])"
      using blocks_inv_update [OF inv i, of ?b] pos [OF i] sz first(1) by simp
    then show ?thesis using eq pos [OF i] by simp
  next
    case later
    let ?p = "alignPointer (nextPointer (bs ! (i - 1))) align"
    let ?b = "(bs ! i)\<lparr>pointer := ?p, used := True, size_b := sz\<rparr>"
    have eq: "b = ?b" "bs' = bs[i := ?b]" using later(3) Suc.prems by simp_all
    have prev: "i - 1 < length bs" using i by simp
    have p1: "nextPointer (bs ! (i - 1)) \<le> ?p" using alignPointer_ge [OF al] .
    have "1 \<le> pointer (bs ! (i - 1))" "0 \<le> size_b (bs ! (i - 1))" using pos [OF prev] by simp_all
    then have "1 \<le> nextPointer (bs ! (i - 1))" by (simp add: nextPointer_def nextPointerWith_def)
    then have p2: "1 \<le> ?p" using p1 by simp
    have nx: "i + 1 < length bs \<Longrightarrow> nextPointer ?b \<le> pointer (bs ! (i + 1))"
      using later(2) by (simp add: nextPointer_def)
    have "blocks_inv (bs[i := ?b])"
      using blocks_inv_update [OF inv i, of ?b] p1 p2 sz nx by simp
    then show ?thesis using eq p2 by simp
  qed
qed

lemma newBlock_inv:
  assumes inv: "blocks_inv bs" and sz: "0 \<le> sz"
    and nb: "newBlock bs sz align = Inr (b, bs')"
  shows "blocks_inv bs' \<and> length bs \<le> length bs' \<and> 1 \<le> pointer b"
proof -
  have al: "1 \<le> align" using nb by (auto simp: newBlock_def split: if_splits)
  show ?thesis
  proof (cases "bs = []")
    case True
    then have "b = AllocBlock_new align sz" "bs' = [AllocBlock_new align sz]"
      using nb al by (auto simp: newBlock_def Let_def)
    then show ?thesis using al sz True
      by (simp add: blocks_inv_def AllocBlock_new_def)
  next
    case False
    show ?thesis
    proof (cases "scan bs 0 sz align")
      case (Some r)
      then have "scan bs 0 sz align = Some (b, bs')"
        using nb al False by (simp add: newBlock_def)
      then show ?thesis using scan_inv [OF inv sz al] by fastforce
    next
      case None
      let ?p = "alignPointer (nextPointer (bs ! (length bs - 1))) align"
      have eq: "b = AllocBlock_new ?p sz" "bs' = bs @ [AllocBlock_new ?p sz]"
        using nb al False None by (auto simp: newBlock_def Let_def)
      have "nextPointer (bs ! (length bs - 1)) \<le> ?p" using alignPointer_ge [OF al] .
      then have i: "blocks_inv (bs @ [AllocBlock_new ?p sz])"
        using blocks_inv_snoc [OF inv False, of "AllocBlock_new ?p sz"] sz
        by (simp add: AllocBlock_new_def)
      then have "1 \<le> pointer (AllocBlock_new ?p sz)" by (simp add: blocks_inv_def)
      then show ?thesis using eq i by simp
    qed
  qed
qed

lemma dealloc_shape:
  "dealloc bs ptr sz align = Inr bs' \<Longrightarrow>
     \<exists>i < length bs. bs' = bs[i := (bs ! i)\<lparr>used := False\<rparr>]"
proof (induction bs arbitrary: bs')
  case Nil
  then show ?case by simp
next
  case (Cons block rest)
  show ?case
  proof (cases "pointer block = ptr")
    case True
    then have "bs' = (block # rest)[0 := ((block # rest) ! 0)\<lparr>used := False\<rparr>]"
      using Cons.prems by (auto split: if_splits)
    then show ?thesis by blast
  next
    case False
    then obtain rest' where r: "dealloc rest ptr sz align = Inr rest'" "bs' = block # rest'"
      using Cons.prems by (auto split: sum.splits)
    then obtain i where "i < length rest" "rest' = rest[i := (rest ! i)\<lparr>used := False\<rparr>]"
      using Cons.IH by blast
    then have "Suc i < length (block # rest)"
      "bs' = (block # rest)[Suc i := ((block # rest) ! Suc i)\<lparr>used := False\<rparr>]"
      using r by simp_all
    then show ?thesis by blast
  qed
qed

lemma dealloc_inv:
  assumes inv: "blocks_inv bs" and d: "dealloc bs ptr sz align = Inr bs'"
  shows "blocks_inv bs' \<and> length bs' = length bs"
proof -
  obtain i where i: "i < length bs" and eq: "bs' = bs[i := (bs ! i)\<lparr>used := False\<rparr>]"
    using dealloc_shape [OF d] by blast
  have pos: "\<And>k. k < length bs \<Longrightarrow> 1 \<le> pointer (bs ! k) \<and> 0 \<le> size_b (bs ! k)"
    and ord: "\<And>k l. k < l \<Longrightarrow> l < length bs \<Longrightarrow> nextPointer (bs ! k) \<le> pointer (bs ! l)"
    using inv by (auto simp: blocks_inv_nth)
  let ?b = "(bs ! i)\<lparr>used := False\<rparr>"
  have same: "nextPointer ?b = nextPointer (bs ! i)" by (simp add: nextPointer_def)
  have "0 < i \<Longrightarrow> nextPointer (bs ! (i - 1)) \<le> pointer ?b"
    using ord [of "i - 1" i] i by simp
  moreover have "i + 1 < length bs \<Longrightarrow> nextPointer ?b \<le> pointer (bs ! (i + 1))"
    using ord [of i "i + 1"] same by simp
  ultimately have "blocks_inv (bs[i := ?b])"
    using blocks_inv_update [OF inv i, of ?b] pos [OF i] by simp
  then show ?thesis using eq by simp
qed

lemma run_calls_inv:
  assumes "blocks_inv bs" and "list_all valid_call cs"
    and "run_calls bs cs = Inr (bs', ps)"
  shows "blocks_inv bs' \<and> length bs \<le> length bs' \<and> (\<forall>p \<in> set ps. 1 \<le> p)"
  using assms
proof (induction bs cs arbitrary: bs' ps rule: run_calls.induct)
  case (1 bs)
  then show ?case by simp
next
  case (2 bs sz align cs)
  then obtain p bs1 where a: "alloc bs sz align = Inr (p, bs1)"
    by (auto split: sum.splits)
  then obtain b where nb: "newBlock bs sz align = Inr (b, bs1)" and p: "p = pointer b"
    by (auto simp: alloc_def split: sum.splits)
  have sz: "0 \<le> sz" using "2.prems"(2) by simp
  have i1: "blocks_inv bs1" "length bs \<le> length bs1" "1 \<le> p"
    using newBlock_inv [OF "2.prems"(1) sz nb] p by simp_all
  obtain ps' where r: "run_calls bs1 cs = Inr (bs', ps')" and ps: "ps = p # ps'"
    using "2.prems"(3) a by (auto split: sum.splits)
  have "blocks_inv bs' \<and> length bs1 \<le> length bs' \<and> (\<forall>p \<in> set ps'. 1 \<le> p)"
    using "2.IH" [OF a refl i1(1) _ r] "2.prems"(2) by simp
  then show ?case using i1 ps by simp
next
  case (3 bs ptr sz align cs)
  then obtain bs1 where d: "dealloc bs ptr sz align = Inr bs1"
    by (auto split: sum.splits)
  have i1: "blocks_inv bs1" "length bs1 = length bs"
    using dealloc_inv [OF "3.prems"(1) d] by simp_all
  have r: "run_calls bs1 cs = Inr (bs', ps)" using "3.prems"(3) d by simp
  have "blocks_inv bs' \<and> length bs1 \<le> length bs' \<and> (\<forall>p \<in> set ps. 1 \<le> p)"
    using "3.IH" [OF d i1(1) _ r] "3.prems"(2) by simp
  then show ?case using i1 by simp
qed


lemma scan_length:
  "scan bs i sz align = Some (b, bs') \<Longrightarrow> length bs' = length bs"
proof (induction "length bs - i" arbitrary: i)
  case 0
  then have "\<not> i < length bs" by simp
  then show ?case using "0.prems" by (simp add: scan_end)
next
  case (Suc n)
  then have i: "i < length bs" by simp
  have "n = length bs - (i + 1)" using Suc.hyps(2) by simp
  then show ?case
    using scan_step [OF i, of sz align] Suc.hyps(1) [of "i + 1"] Suc.prems by auto
qed

lemma newBlock_length:
  "newBlock bs sz align = Inr (b, bs') \<Longrightarrow> length bs \<le> length bs'"
  by (auto simp: newBlock_def Let_def scan_length split: if_splits option.splits)

lemma run_calls_length:
  "run_calls bs cs = Inr (bs', ps) \<Longrightarrow> length bs \<le> length bs'"
proof (induction bs cs arbitrary: bs' ps rule: run_calls.induct)
  case (1 bs)
  then show ?case by simp
next
  case (2 bs sz align cs)
  then obtain p bs1 ps' where a: "alloc bs sz align = Inr (p, bs1)"
    and r: "run_calls bs1 cs = Inr (bs', ps')"
    by (auto split: sum.splits)
  then obtain b where "newBlock bs sz align = Inr (b, bs1)"
    by (auto simp: alloc_def split: sum.splits)
  then have "length bs \<le> length bs1" by (rule newBlock_length)
  moreover have "length bs1 \<le> length bs'" using "2.IH" [OF a refl r] .
  ultimately show ?case by simp
next
  case (3 bs ptr sz align cs)
  then obtain bs1 where d: "dealloc bs ptr sz align = Inr bs1"
    and r: "run_calls bs1 cs = Inr (bs', ps)"
    by (auto split: sum.splits)
  have "length bs1 = length bs" using dealloc_shape [OF d] by auto
  moreover have "length bs1 \<le> length bs'" using "3.IH" [OF d r] .
  ultimately show ?case by simp
qed

lemma blocks_inv_sorted: "blocks_inv bs \<Longrightarrow> sorted (map pointer bs)"
proof -
  assume inv: "blocks_inv bs"
  have "pointer (bs ! i) \<le> pointer (bs ! j)" if "i < j" "j < length bs" for i j
  proof -
    have "0 \<le> size_b (bs ! i)" using inv that by (simp add: blocks_inv_nth)
    then have "pointer (bs ! i) \<le> nextPointer (bs ! i)"
      by (simp add: nextPointer_def nextPointerWith_def)
    also have "\<dots> \<le> pointer (bs ! j)" using inv that by (simp add: blocks_inv_nth)
    finally show ?thesis .
  qed
  then show ?thesis by (simp add: sorted_map sorted_wrt_iff_nth_less)
qed

lemma blocks_inv_disjoint:
  assumes inv: "blocks_inv bs" and "i < length bs" "j < length bs" "i \<noteq> j"
  shows "block_range (bs ! i) \<inter> block_range (bs ! j) = {}"
proof -
  have ord: "\<And>k l. k < l \<Longrightarrow> l < length bs \<Longrightarrow> nextPointer (bs ! k) \<le> pointer (bs ! l)"
    using inv by (auto simp: blocks_inv_nth)
  consider "i < j" | "j < i" using assms(4) by linarith
  then show ?thesis
  proof cases
    case 1
    then show ?thesis using ord [of i j] assms by (auto simp: block_range_def)
  next
    case 2
    then show ?thesis using ord [of j i] assms by (auto simp: block_range_def)
  qed
qed


text \<open>
  Claim C2. Take any run of valid \<^verbatim>\<open>alloc\<close> and \<^verbatim>\<open>dealloc\<close> calls from the empty
  allocator that does not fault, with block list \<open>bs\<close> at its end, and any continuation
  of it. Then the addresses in \<open>bs\<close> ascend, the list after the continuation is at least
  as long as \<open>bs\<close>, every address an \<^verbatim>\<open>alloc\<close> returned is not \<open>0\<close>, and the address
  ranges of any two distinct used blocks of \<open>bs\<close> are disjoint.
\<close>

theorem alloc_dealloc_invariants:
  assumes run: "run_calls [] cs = Inr (bs, ps)" and valid: "list_all valid_call cs"
    and more: "run_calls bs cs' = Inr (bs', ps')"
  shows "sorted (map pointer bs) \<and> length bs \<le> length bs' \<and> (\<forall>p \<in> set ps. p \<noteq> 0) \<and>
         (\<forall>i < length bs. \<forall>j < length bs.
            i \<noteq> j \<and> used (bs ! i) \<and> used (bs ! j) \<longrightarrow>
            block_range (bs ! i) \<inter> block_range (bs ! j) = {})"
proof -
  have "blocks_inv []" by (simp add: blocks_inv_def)
  then have inv: "blocks_inv bs" and ps: "\<forall>p \<in> set ps. 1 \<le> p"
    using run_calls_inv [OF _ valid run] by simp_all
  have "\<forall>p \<in> set ps. p \<noteq> 0" using ps by fastforce
  then show ?thesis
    using blocks_inv_sorted [OF inv] run_calls_length [OF more] blocks_inv_disjoint [OF inv]
    by simp
qed

theorem alloc_dealloc_invariants_witness:
  "run_calls [] [Alloc 8 4, Alloc 8 4, Dealloc 4 8 4, Alloc 8 4] =
     Inr ([\<lparr>pointer = 4, size_b = 8, used = True\<rparr>, \<lparr>pointer = 12, size_b = 8, used = True\<rparr>],
          [4, 12, 4])
   \<and> list_all valid_call [Alloc 8 4, Alloc 8 4, Dealloc 4 8 4, Alloc 8 4]
   \<and> run_calls [\<lparr>pointer = 4, size_b = 8, used = True\<rparr>, \<lparr>pointer = 12, size_b = 8, used = True\<rparr>]
        [Alloc 16 8] =
     Inr ([\<lparr>pointer = 4, size_b = 8, used = True\<rparr>, \<lparr>pointer = 12, size_b = 8, used = True\<rparr>,
           \<lparr>pointer = 24, size_b = 16, used = True\<rparr>], [24])
   \<and> sorted (map pointer
        [\<lparr>pointer = 4, size_b = 8, used = True\<rparr>, \<lparr>pointer = 12, size_b = 8, used = True\<rparr>])
   \<and> (4::int) \<noteq> 0 \<and> (12::int) \<noteq> 0
   \<and> block_range \<lparr>pointer = 4, size_b = 8, used = True\<rparr>
       \<inter> block_range \<lparr>pointer = 12, size_b = 8, used = True\<rparr> = {}"
proof -
  let ?bs = "[\<lparr>pointer = 4, size_b = 8, used = True\<rparr>, \<lparr>pointer = 12, size_b = 8, used = True\<rparr>]"
  have h1: "run_calls [] [Alloc 8 4, Alloc 8 4, Dealloc 4 8 4, Alloc 8 4] = Inr (?bs, [4, 12, 4])"
    by (simp add: alloc_def newBlock_def scan.simps alignPointer_div AllocBlock_new_def
          nextPointer_def nextPointerWith_def Let_def)
  have h2: "list_all valid_call [Alloc 8 4, Alloc 8 4, Dealloc 4 8 4, Alloc 8 4]"
    by simp
  have h3: "run_calls ?bs [Alloc 16 8] =
              Inr (?bs @ [\<lparr>pointer = 24, size_b = 16, used = True\<rparr>], [24])"
    by (simp add: alloc_def newBlock_def scan.simps alignPointer_div AllocBlock_new_def
          nextPointer_def nextPointerWith_def Let_def)
  note c = alloc_dealloc_invariants [OF h1 h2 h3]
  have q: "\<forall>i < length ?bs. \<forall>j < length ?bs.
              i \<noteq> j \<and> used (?bs ! i) \<and> used (?bs ! j) \<longrightarrow>
              block_range (?bs ! i) \<inter> block_range (?bs ! j) = {}"
    using c by blast
  have d: "block_range (?bs ! 0) \<inter> block_range (?bs ! 1) = {}"
    using q [rule_format, of 0 1] by simp
  show ?thesis using h1 h2 h3 c d by simp
qed

section \<open>The first-fit scan at a later block\<close>

lemma AllocBlock_take:
  "(r::AllocBlock)\<lparr>pointer := p, used := True, size_b := s\<rparr> = \<lparr>pointer = p, size_b = s, used = True\<rparr>"
  by (cases r) simp

text \<open>
  Claim C3, as the code has it. Let the loop of \<^verbatim>\<open>newBlock\<close> be at a block \<open>i > 0\<close> that
  is free and large enough, and let the candidate be the end of block \<open>i - 1\<close> aligned up
  to \<open>align\<close>. If a following block exists and the candidate plus the size is strictly
  greater than that block's start, the candidate is rejected and the loop goes on with
  block \<open>i + 1\<close>. Otherwise (also when the candidate plus the size is equal to that start)
  the block gets the candidate as address and the requested size, is marked used, and
  the scan ends with it; when the loop reached \<open>i\<close> from the first block, \<^verbatim>\<open>alloc\<close> returns
  the candidate.
\<close>

theorem scan_later_block:
  "0 < i \<and> i < length bs \<and> \<not> used (bs ! i) \<and> sz \<le> size_b (bs ! i) \<longrightarrow>
     (if i + 1 < length bs
         \<and> pointer (bs ! (i + 1))
             < nextPointerWith (alignPointer (nextPointer (bs ! (i - 1))) align) sz
      then scan bs i sz align = scan bs (i + 1) sz align
      else scan bs i sz align =
             Some (\<lparr>pointer = alignPointer (nextPointer (bs ! (i - 1))) align,
                    size_b = sz, used = True\<rparr>,
                   bs[i := \<lparr>pointer = alignPointer (nextPointer (bs ! (i - 1))) align,
                            size_b = sz, used = True\<rparr>])
           \<and> (1 \<le> align \<and> scan bs 0 sz align = scan bs i sz align \<longrightarrow>
                alloc bs sz align =
                  Inr (alignPointer (nextPointer (bs ! (i - 1))) align,
                       bs[i := \<lparr>pointer = alignPointer (nextPointer (bs ! (i - 1))) align,
                                size_b = sz, used = True\<rparr>])))"
proof (intro impI, elim conjE)
  assume i: "0 < i" "i < length bs" and b: "\<not> used (bs ! i)" "sz \<le> size_b (bs ! i)"
  let ?p = "alignPointer (nextPointer (bs ! (i - 1))) align"
  let ?b = "\<lparr>pointer = ?p, size_b = sz, used = True\<rparr>"
  show "if i + 1 < length bs \<and> pointer (bs ! (i + 1)) < nextPointerWith ?p sz
        then scan bs i sz align = scan bs (i + 1) sz align
        else scan bs i sz align = Some (?b, bs[i := ?b])
           \<and> (1 \<le> align \<and> scan bs 0 sz align = scan bs i sz align \<longrightarrow>
                alloc bs sz align = Inr (?p, bs[i := ?b]))"
  proof (cases "i + 1 < length bs \<and> pointer (bs ! (i + 1)) < nextPointerWith ?p sz")
    case True
    then have "scan bs i sz align = scan bs (i + 1) sz align"
      using i b by (subst scan.simps) (simp add: Let_def)
    then show ?thesis unfolding if_P [OF True] .
  next
    case False
    then have s: "scan bs i sz align = Some (?b, bs[i := ?b])"
      using i b by (subst scan.simps) (auto simp add: Let_def AllocBlock_take)
    have "alloc bs sz align = Inr (?p, bs[i := ?b])"
      if "1 \<le> align" "scan bs 0 sz align = scan bs i sz align"
      using that s i by (auto simp: alloc_def newBlock_def)
    then show ?thesis unfolding if_not_P [OF False] using s by blast
  qed
qed

text \<open>
  Both branches at block 1 of a list of three: a request of 6 bytes fits before the next
  block and is served at address 12; a request of 16 bytes would end at 28, past the
  next block's start 24, and the scan moves on.
\<close>

theorem scan_later_block_witness:
  "(0::nat) < 1
   \<and> 1 < length [\<lparr>pointer = 4, size_b = 8, used = True\<rparr>, \<lparr>pointer = 12, size_b = 8, used = False\<rparr>,
                 \<lparr>pointer = 24, size_b = 8, used = True\<rparr>]
   \<and> scan [\<lparr>pointer = 4, size_b = 8, used = True\<rparr>, \<lparr>pointer = 12, size_b = 8, used = False\<rparr>,
            \<lparr>pointer = 24, size_b = 8, used = True\<rparr>] 0 6 4
     = scan [\<lparr>pointer = 4, size_b = 8, used = True\<rparr>, \<lparr>pointer = 12, size_b = 8, used = False\<rparr>,
            \<lparr>pointer = 24, size_b = 8, used = True\<rparr>] 1 6 4
   \<and> alloc [\<lparr>pointer = 4, size_b = 8, used = True\<rparr>, \<lparr>pointer = 12, size_b = 8, used = False\<rparr>,
             \<lparr>pointer = 24, size_b = 8, used = True\<rparr>] 6 4
     = Inr (12, [\<lparr>pointer = 4, size_b = 8, used = True\<rparr>, \<lparr>pointer = 12, size_b = 6, used = True\<rparr>,
                 \<lparr>pointer = 24, size_b = 8, used = True\<rparr>])
   \<and> scan [\<lparr>pointer = 4, size_b = 8, used = True\<rparr>, \<lparr>pointer = 12, size_b = 16, used = False\<rparr>,
            \<lparr>pointer = 24, size_b = 8, used = True\<rparr>] 1 16 4
     = scan [\<lparr>pointer = 4, size_b = 8, used = True\<rparr>, \<lparr>pointer = 12, size_b = 16, used = False\<rparr>,
            \<lparr>pointer = 24, size_b = 8, used = True\<rparr>] 2 16 4"
proof -
  let ?bs = "[\<lparr>pointer = 4, size_b = 8, used = True\<rparr>, \<lparr>pointer = 12, size_b = 8, used = False\<rparr>,
              \<lparr>pointer = 24, size_b = 8, used = True\<rparr>]"
  let ?cs = "[\<lparr>pointer = 4, size_b = 8, used = True\<rparr>, \<lparr>pointer = 12, size_b = 16, used = False\<rparr>,
              \<lparr>pointer = 24, size_b = 8, used = True\<rparr>]"
  have r: "scan ?bs 0 6 4 = scan ?bs 1 6 4"
    by (subst scan.simps) simp
  have a: "alloc ?bs 6 4 = Inr (12, ?bs[1 := \<lparr>pointer = 12, size_b = 6, used = True\<rparr>])"
    using scan_later_block [of 1 ?bs 6 4] r
    by (simp add: alignPointer_div nextPointer_def nextPointerWith_def)
  have c: "scan ?cs 1 16 4 = scan ?cs 2 16 4"
    using scan_later_block [of 1 ?cs 16 4]
    by (simp add: alignPointer_div nextPointer_def nextPointerWith_def numeral_2_eq_2)
  show ?thesis using r a c by simp
qed

text \<open>
  The claim as the spec words it rejects a candidate that reaches the following block's
  start. Here block 1 is free and large enough, the candidate is 12, and \<open>12 + 8\<close> reaches
  the start 20 of block 2; the loop does not go on to block 2, it takes block 1, and
  \<^verbatim>\<open>alloc\<close> returns 12.
\<close>

theorem scan_exact_fit_counterexample:
  "\<not> used ([\<lparr>pointer = 4, size_b = 8, used = True\<rparr>, \<lparr>pointer = 12, size_b = 8, used = False\<rparr>,
             \<lparr>pointer = 20, size_b = 8, used = True\<rparr>] ! 1)
   \<and> 8 \<le> size_b ([\<lparr>pointer = 4, size_b = 8, used = True\<rparr>, \<lparr>pointer = 12, size_b = 8, used = False\<rparr>,
             \<lparr>pointer = 20, size_b = 8, used = True\<rparr>] ! 1)
   \<and> alignPointer (nextPointer \<lparr>pointer = 4, size_b = 8, used = True\<rparr>) 4 = 12
   \<and> pointer \<lparr>pointer = 20, size_b = 8, used = True\<rparr> \<le> nextPointerWith 12 8
   \<and> scan [\<lparr>pointer = 4, size_b = 8, used = True\<rparr>, \<lparr>pointer = 12, size_b = 8, used = False\<rparr>,
            \<lparr>pointer = 20, size_b = 8, used = True\<rparr>] 1 8 4
       \<noteq> scan [\<lparr>pointer = 4, size_b = 8, used = True\<rparr>, \<lparr>pointer = 12, size_b = 8, used = False\<rparr>,
            \<lparr>pointer = 20, size_b = 8, used = True\<rparr>] 2 8 4
   \<and> alloc [\<lparr>pointer = 4, size_b = 8, used = True\<rparr>, \<lparr>pointer = 12, size_b = 8, used = False\<rparr>,
             \<lparr>pointer = 20, size_b = 8, used = True\<rparr>] 8 4
       = Inr (12, [\<lparr>pointer = 4, size_b = 8, used = True\<rparr>, \<lparr>pointer = 12, size_b = 8, used = True\<rparr>,
                   \<lparr>pointer = 20, size_b = 8, used = True\<rparr>])"
  by (simp add: alloc_def newBlock_def scan.simps alignPointer_div AllocBlock_new_def
        nextPointer_def nextPointerWith_def Let_def)

section \<open>An alignment below 1\<close>

text \<open>
  Claim C5, as the code has it. For every block list and size, \<^verbatim>\<open>alloc\<close> with an alignment
  below 1 raises the built-in \<open>TypeError\<close> with the message
  \<^verbatim>\<open>alignment cannot be less than 1\<close>. That fault is not of the class \<open>FatalError\<close>, which
  the source raises for missing guest exports.
\<close>

theorem alloc_align_below_one:
  "align < 1 \<Longrightarrow>
     alloc bs sz align = Inl (TypeError ''alignment cannot be less than 1'')
     \<and> \<not> is_FatalError (projl (alloc bs sz align))"
  by (simp add: alloc_def newBlock_def)

theorem alloc_align_below_one_witness:
  "(0::int) < 1
   \<and> alloc [\<lparr>pointer = 4, size_b = 8, used = True\<rparr>] 8 0
       = Inl (TypeError ''alignment cannot be less than 1'')
   \<and> \<not> is_FatalError (projl (alloc [\<lparr>pointer = 4, size_b = 8, used = True\<rparr>] 8 0))"
  using alloc_align_below_one [of 0 "[\<lparr>pointer = 4, size_b = 8, used = True\<rparr>]" 8] by simp

text \<open>\<^verbatim>\<open>alloc(8, 0)\<close> on the empty allocator faults, and the fault is not a \<open>FatalError\<close>.\<close>

theorem alloc_align_not_fatal_counterexample:
  "isl (alloc [] 8 0) \<and> \<not> is_FatalError (projl (alloc [] 8 0))"
  by (simp add: alloc_def newBlock_def)

section \<open>The outcomes of \<^verbatim>\<open>dealloc\<close>\<close>

lemma dealloc_no_match:
  "\<forall>b \<in> set bs. pointer b \<noteq> ptr \<Longrightarrow>
     dealloc bs ptr sz align = Inl (FreeUnallocedError ptr sz align)"
  by (induction bs) auto

lemma dealloc_first_match:
  "\<forall>b \<in> set pre. pointer b \<noteq> ptr \<Longrightarrow> pointer block = ptr \<Longrightarrow>
   dealloc (pre @ block # rest) ptr sz align =
     (if \<not> used block then Inl (FreeAgainError ptr sz align)
      else if size_b block \<noteq> sz then Inl (TypeError ''tag is not a function'')
      else Inr (pre @ block\<lparr>used := False\<rparr> # rest))"
  by (induction pre)
     (auto simp: throw_new_def new_FreeMismatchedSizeError_def call_string_as_tag_def)

text \<open>
  Claim C6 at the input where the code leaves it. The lemmas above give the other three
  outcomes as the claim states them. With one used block of size 8 at address 4,
  \<^verbatim>\<open>dealloc(4, 16, 4)\<close> finds the block and a size that differs, and the fault that comes
  out is the \<open>TypeError\<close> of the failing error constructor, not a
  \<open>FreeMismatchedSizeError\<close>.
\<close>

theorem dealloc_mismatched_size_raises_TypeError:
  "dealloc [\<lparr>pointer = 4, size_b = 8, used = True\<rparr>] 4 16 4 = Inl (TypeError ''tag is not a function'')
   \<and> \<not> is_FreeMismatchedSizeError (TypeError ''tag is not a function'')"
  by (simp add: throw_new_def new_FreeMismatchedSizeError_def call_string_as_tag_def)

section \<open>\<^verbatim>\<open>realloc\<close> with an unchanged size\<close>

text \<open>
  Claim C7. For a used block at address \<open>p\<close> of tracked size \<open>n\<close> and any alignment,
  \<open>realloc p n a n\<close> returns \<open>p\<close> and leaves the module as it was: every block and the
  guest memory are the same.
\<close>

theorem realloc_same_size_live_block:
  "i < length (blocks self) \<and> pointer (blocks self ! i) = p \<and> size_b (blocks self ! i) = n
     \<and> used (blocks self ! i) \<longrightarrow>
   realloc self p n a n = (Inr p, self)"
  by (simp add: realloc_def)

theorem realloc_same_size_live_block_witness:
  "(0::nat) < length (blocks \<lparr>runner = \<lparr>exports_memory = Some [1, 2, 3, 4, 5, 6, 7, 8]\<rparr>,
                             blocks = [\<lparr>pointer = 4, size_b = 4, used = True\<rparr>]\<rparr>)
   \<and> realloc \<lparr>runner = \<lparr>exports_memory = Some [1, 2, 3, 4, 5, 6, 7, 8]\<rparr>,
              blocks = [\<lparr>pointer = 4, size_b = 4, used = True\<rparr>]\<rparr> 4 4 2 4
       = (Inr 4, \<lparr>runner = \<lparr>exports_memory = Some [1, 2, 3, 4, 5, 6, 7, 8]\<rparr>,
                  blocks = [\<lparr>pointer = 4, size_b = 4, used = True\<rparr>]\<rparr>)"
  using realloc_same_size_live_block
          [of 0 "\<lparr>runner = \<lparr>exports_memory = Some [1, 2, 3, 4, 5, 6, 7, 8]\<rparr>,
                   blocks = [\<lparr>pointer = 4, size_b = 4, used = True\<rparr>]\<rparr>" 4 4 2]
  by simp

text \<open>
  Claim C10. For every address, size and alignment and every module, \<open>realloc p n a n\<close>
  returns \<open>p\<close>: the result is never a fault, whatever the block list holds.
\<close>

theorem realloc_same_size_never_inspects:
  "realloc self p n a n = (Inr p, self)"
  by (simp add: realloc_def)

text \<open>
  Two instances: an address no block has, and the address of a free block. With a new
  size that differs, the same two calls raise.
\<close>

theorem realloc_same_size_never_inspects_witness:
  "realloc \<lparr>runner = \<lparr>exports_memory = None\<rparr>, blocks = []\<rparr> 64 8 4 8
     = (Inr 64, \<lparr>runner = \<lparr>exports_memory = None\<rparr>, blocks = []\<rparr>)
   \<and> realloc \<lparr>runner = \<lparr>exports_memory = None\<rparr>,
              blocks = [\<lparr>pointer = 4, size_b = 8, used = False\<rparr>]\<rparr> 4 8 4 8
     = (Inr 4, \<lparr>runner = \<lparr>exports_memory = None\<rparr>,
                blocks = [\<lparr>pointer = 4, size_b = 8, used = False\<rparr>]\<rparr>)"
  using realloc_same_size_never_inspects
          [of "\<lparr>runner = \<lparr>exports_memory = None\<rparr>, blocks = []\<rparr>" 64 8 4]
        realloc_same_size_never_inspects
          [of "\<lparr>runner = \<lparr>exports_memory = None\<rparr>,
                blocks = [\<lparr>pointer = 4, size_b = 8, used = False\<rparr>]\<rparr>" 4 8 4]
  by simp

lemma realloc_other_size_inspects:
  "fst (realloc \<lparr>runner = \<lparr>exports_memory = None\<rparr>, blocks = []\<rparr> 64 8 4 16)
     = Inl (ReallocUnallocedError 64 8 4)"
  "fst (realloc \<lparr>runner = \<lparr>exports_memory = None\<rparr>,
                 blocks = [\<lparr>pointer = 4, size_b = 8, used = False\<rparr>]\<rparr> 4 8 4 16)
     = Inl (ReallocFreedError 4 8 4)"
  by (simp_all add: realloc_def)

section \<open>\<^verbatim>\<open>realloc\<close> and the bytes of the block\<close>

text \<open>
  No call of \<^verbatim>\<open>realloc\<close> writes guest memory: both arrays it makes come from the
  \<^verbatim>\<open>Memory\<close> object, not from its buffer, so both are empty arrays of their own.
\<close>

lemma realloc_leaves_memory:
  "runner (snd (realloc self ptr sz align newSize)) = runner self"
  by (auto simp: realloc_def Let_def Runner_memory_def Uint8Array_new_def Uint8Array_set_def
        elements_def array_length_def
      split: sum.splits option.splits prod.splits js_object.splits)

text \<open>
  Claim C1 at an input where the code leaves it. One used block of 8 bytes at address 4
  holds the bytes 1 to 8; \<^verbatim>\<open>realloc(4, 8, 4, 16)\<close> marks it free, appends a block of 16
  bytes at address 12 and returns 12. Guest memory is as before: the 8 bytes at the new
  address are the zeros that were there, not the bytes of the old block.
\<close>

theorem realloc_moves_block_without_data:
  "realloc \<lparr>runner = \<lparr>exports_memory = Some (replicate 4 0 @ [1, 2, 3, 4, 5, 6, 7, 8] @ replicate 20 0)\<rparr>,
            blocks = [\<lparr>pointer = 4, size_b = 8, used = True\<rparr>]\<rparr> 4 8 4 16
     = (Inr 12,
        \<lparr>runner = \<lparr>exports_memory = Some (replicate 4 0 @ [1, 2, 3, 4, 5, 6, 7, 8] @ replicate 20 0)\<rparr>,
         blocks = [\<lparr>pointer = 4, size_b = 8, used = False\<rparr>, \<lparr>pointer = 12, size_b = 16, used = True\<rparr>]\<rparr>)
   \<and> take 8 (drop 4 (replicate 4 0 @ [1, 2, 3, 4, 5, 6, 7, 8] @ replicate 20 (0::byte)))
       = [1, 2, 3, 4, 5, 6, 7, 8]
   \<and> take 8 (drop 12 (replicate 4 0 @ [1, 2, 3, 4, 5, 6, 7, 8] @ replicate 20 (0::byte)))
       = [0, 0, 0, 0, 0, 0, 0, 0]"
  by (simp add: realloc_def Let_def Runner_memory_def Uint8Array_new_def Uint8Array_set_def
        elements_def array_length_def newBlock_def scan.simps alignPointer_div AllocBlock_new_def
        nextPointer_def nextPointerWith_def numeral_eq_Suc)

section \<open>The panic bridge\<close>

lemma message_no_fragment:
  "list_all (\<lambda>c. \<not> is_message_fragment c) calls \<Longrightarrow>
     message (foldl panic_step self calls) = message self"
proof (induction calls arbitrary: self)
  case Nil
  then show ?case by simp
next
  case (Cons c calls)
  then show ?case
    by (cases c) (simp_all add: panic_put_file_def panic_put_line_column_def)
qed

lemma Number_toString_0: "Number_toString 0 = ''0''"
  by (simp add: Number_toString_def natToString.simps digit_def)

text \<open>
  Claim C8. On a new panic bridge \<^verbatim>\<open>panic()\<close> raises the panic fault with message
  \<^verbatim>\<open><no message, ?:0:0>\<close>, file \<^verbatim>\<open>?\<close>, line 0 and column 0. After any calls none of which
  sends a message fragment, it raises the fault whose message is
  \<^verbatim>\<open><no message, {file}:{line}:{column}>\<close>, with the file that was set last or \<^verbatim>\<open>?\<close>, and
  the line and column that were set last or 0.
\<close>

theorem panic_without_message:
  "panic PanicModule_new = WasmPanicError ''<no message, ?:0:0>'' ''?'' 0 0
   \<and> (list_all (\<lambda>c. \<not> is_message_fragment c) calls \<longrightarrow>
        panic (foldl panic_step PanicModule_new calls) =
          WasmPanicError
            (''<no message, ''
               @ (case file_name (foldl panic_step PanicModule_new calls) of
                    None \<Rightarrow> ''?'' | Some f \<Rightarrow> f)
               @ '':'' @ Number_toString (line (foldl panic_step PanicModule_new calls))
               @ '':'' @ Number_toString (column (foldl panic_step PanicModule_new calls))
               @ ''>'')
            (case file_name (foldl panic_step PanicModule_new calls) of
               None \<Rightarrow> ''?'' | Some f \<Rightarrow> f)
            (line (foldl panic_step PanicModule_new calls))
            (column (foldl panic_step PanicModule_new calls)))"
proof (intro conjI impI)
  show "panic PanicModule_new = WasmPanicError ''<no message, ?:0:0>'' ''?'' 0 0"
    by (simp add: panic_def PanicModule_new_def Number_toString_0)
next
  assume "list_all (\<lambda>c. \<not> is_message_fragment c) calls"
  then have "message (foldl panic_step PanicModule_new calls) = []"
    using message_no_fragment [of calls PanicModule_new] by (simp add: PanicModule_new_def)
  then show "panic (foldl panic_step PanicModule_new calls) =
          WasmPanicError
            (''<no message, ''
               @ (case file_name (foldl panic_step PanicModule_new calls) of
                    None \<Rightarrow> ''?'' | Some f \<Rightarrow> f)
               @ '':'' @ Number_toString (line (foldl panic_step PanicModule_new calls))
               @ '':'' @ Number_toString (column (foldl panic_step PanicModule_new calls))
               @ ''>'')
            (case file_name (foldl panic_step PanicModule_new calls) of
               None \<Rightarrow> ''?'' | Some f \<Rightarrow> f)
            (line (foldl panic_step PanicModule_new calls))
            (column (foldl panic_step PanicModule_new calls))"
    by (simp add: panic_def Let_def)
qed

theorem panic_without_message_witness:
  "list_all (\<lambda>c. \<not> is_message_fragment c) [Panic_put_file ''main.rs'', Panic_put_line_column 12 7]
   \<and> panic (foldl panic_step PanicModule_new [Panic_put_file ''main.rs'', Panic_put_line_column 12 7])
       = WasmPanicError ''<no message, main.rs:12:7>'' ''main.rs'' 12 7"
proof -
  have h: "list_all (\<lambda>c. \<not> is_message_fragment c)
             [Panic_put_file ''main.rs'', Panic_put_line_column 12 7]"
    by simp
  have "panic (foldl panic_step PanicModule_new [Panic_put_file ''main.rs'', Panic_put_line_column 12 7])
       = WasmPanicError ''<no message, main.rs:12:7>'' ''main.rs'' 12 7"
    using panic_without_message [of "[Panic_put_file ''main.rs'', Panic_put_line_column 12 7]"] h
    by (simp add: PanicModule_new_def panic_put_file_def panic_put_line_column_def
          Number_toString_def natToString.simps digit_def)
  then show ?thesis using h by simp
qed

text \<open>
  Claim C9 at an input where the code leaves it. \<^verbatim>\<open>panic_ch(65)\<close> on a new bridge makes
  the message the two characters \<^verbatim>\<open>65\<close>, the decimal digits of the number, and not the one
  character \<^verbatim>\<open>A\<close> whose code point is 65; \<^verbatim>\<open>dblog_ch(65)\<close> pushes the one code unit of \<^verbatim>\<open>A\<close>.
\<close>

theorem panic_ch_appends_decimal_digits:
  "message (panic_ch PanicModule_new 65) = ''65''
   \<and> message (panic_ch PanicModule_new 65) \<noteq> ''A''
   \<and> dblog_ch [] 65 = Inr [[of_char CHR ''A'']]"
  by (simp add: panic_ch_def PanicModule_new_def Number_toString_def natToString.simps digit_def
        dblog_ch_def String_fromCodePoint_def)

end
